theory Spec2Isabelle
  imports Complex_Main
begin

section \<open>Data model of \<^verbatim>\<open>src/src/App.tsx\<close>\<close>

text \<open>
  The component keeps five pieces of React state: the selected files, the last extracted
  text, the loading flag, the error message and the table of extracted rows
  (\<^verbatim>\<open>string[][]\<close>). A \<^verbatim>\<open>File\<close> is reduced to what the request payload reads of it: its
  media type and the base64 part of the data URL delivered by the \<^verbatim>\<open>FileReader\<close>.
\<close>

type_synonym row = "string list"
type_synonym dataset = "row list"

record image_file =
  mimeType :: string
  base64Data :: string

record app =
  imageFiles :: "image_file list"
  extractedData :: string
  loading :: bool
  error :: string
  allExtracted :: dataset

definition headers :: row where
  "headers =
     [''Order Number'', ''Recipient's Name'', ''Phone Number'', ''Standby Phone'',
      ''State'', ''City'', ''Recipient Street'']"

subsection \<open>The inference service's answer\<close>

text \<open>
  What \<^verbatim>\<open>apiResponse.json()\<close> can deliver: any JSON value, that is null, a boolean, a number,
  a string, an array or an object (its members in the order of the text; of two members
  with one name the later one counts). \<open>JUndefined\<close> is not a JSON value: it is what reading
  a member that is not there gives.
\<close>

datatype jsv =
    JUndefined
  | JNull
  | JBool bool
  | JNum rat
  | JStr string
  | JArr "jsv list"
  | JObj "(string \<times> jsv) list"

text \<open>A response has a status; its body is \<open>None\<close> when it is not valid JSON.\<close>

record response =
  status :: nat
  json :: "jsv option"

definition ok :: "response \<Rightarrow> bool" where
  "ok r = (200 \<le> status r \<and> status r \<le> 299)"

text \<open>
  One call of \<^verbatim>\<open>fetch\<close> either raises (a connection failure, with its message) or delivers a
  response. The network is an oracle that answers the n-th call of the session.
\<close>

datatype fetch_result = Fault string | Response response

type_synonym net = "nat \<Rightarrow> fetch_result"

text \<open>
  The errors raised inside the per-image callback. The first three are the transport's:
  \<^verbatim>\<open>Error("API call failed with status: N")\<close>, \<^verbatim>\<open>Error("API call failed after multiple retries.")\<close>
  and the exception raised by \<^verbatim>\<open>fetch\<close> itself. \<open>JsonFault\<close> is the rejection of \<^verbatim>\<open>json()\<close>
  on a body that is not JSON, and \<open>TypeError\<close> is raised by reading a member of null or
  undefined and by calling \<^verbatim>\<open>trim\<close> on what is not a string. \<open>Undecided\<close> is no error of the
  code: it marks the one comparison that is left open below.
\<close>

datatype js_error =
    RequestFailed nat
  | RetriesExhausted
  | Unreachable string
  | JsonFault
  | TypeError
  | Undecided

text \<open>
  What the outside world sees of a run: the number of \<^verbatim>\<open>fetch\<close> calls issued so far, and
  the calls (with the image they carry) and \<^verbatim>\<open>setTimeout\<close> delays in the order they happen.
\<close>

datatype event = Fetch image_file | Wait nat

record world =
  calls :: nat
  trace :: "event list"

definition fetch :: "net \<Rightarrow> image_file \<Rightarrow> world \<Rightarrow> fetch_result \<times> world" where
  "fetch nw img w = (nw (calls w), w\<lparr>calls := Suc (calls w), trace := trace w @ [Fetch img]\<rparr>)"

definition wait :: "nat \<Rightarrow> world \<Rightarrow> world" where
  "wait ms w = w\<lparr>trace := trace w @ [Wait ms]\<rparr>"

section \<open>Retrying transport (lines 67-97)\<close>

definition maxRetries :: nat where
  "maxRetries = 5"

definition initialDelay :: nat where
  "initialDelay = 1000"

text \<open>
  The body of the \<^verbatim>\<open>try\<close> block at lines 72-85: the response is assigned to \<^verbatim>\<open>apiResponse\<close>
  first, then the loop breaks, or backs off on status 429, or throws. When \<^verbatim>\<open>fetch\<close> itself
  raises, \<^verbatim>\<open>apiResponse\<close> keeps its previous value.
\<close>

datatype attempt =
    Break response
  | Throttled response
  | Threw js_error "response option"

fun try_body :: "fetch_result \<Rightarrow> response option \<Rightarrow> attempt" where
  "try_body (Response r) apiResponse =
     (if ok r then Break r
      else if status r = 429 then Throttled r
      else Threw (RequestFailed (status r)) (Some r))"
| "try_body (Fault msg) apiResponse = Threw (Unreachable msg) apiResponse"

text \<open>
  The \<^verbatim>\<open>while (retries < maxRetries)\<close> loop. The \<^verbatim>\<open>throw\<close> of line 84 sits inside the
  \<^verbatim>\<open>try\<close> block, so the \<^verbatim>\<open>catch\<close> of lines 86-92 receives it exactly as it receives a
  fault of \<^verbatim>\<open>fetch\<close>.
\<close>

function retry_loop ::
  "net \<Rightarrow> image_file \<Rightarrow> nat \<Rightarrow> response option \<Rightarrow> world
     \<Rightarrow> (js_error + response option) \<times> world" where
  "retry_loop nw img retries apiResponse w =
     (if retries < maxRetries then
        (case fetch nw img w of (fr, w1) \<Rightarrow>
           (case try_body fr apiResponse of
              Break r \<Rightarrow> (Inr (Some r), w1)
            | Throttled r \<Rightarrow>
                retry_loop nw img (retries + 1) (Some r)
                  (wait (initialDelay * 2 ^ retries) w1)
            | Threw e a \<Rightarrow>
                (if retries < maxRetries - 1 then
                   retry_loop nw img (retries + 1) a
                     (wait (initialDelay * 2 ^ retries) w1)
                 else (Inl e, w1))))
      else (Inr apiResponse, w))"
  by pat_completeness auto
termination
  by (relation "measure (\<lambda>(nw, img, retries, apiResponse, w). maxRetries - retries)") auto

declare retry_loop.simps [simp del]

text \<open>The loop followed by the check of lines 95-97.\<close>

definition send :: "net \<Rightarrow> image_file \<Rightarrow> world \<Rightarrow> (js_error + response) \<times> world" where
  "send nw img w =
     (case retry_loop nw img 0 None w of
        (Inl e, w') \<Rightarrow> (Inl e, w')
      | (Inr None, w') \<Rightarrow> (Inl RetriesExhausted, w')
      | (Inr (Some r), w') \<Rightarrow>
          (if \<not> ok r then (Inl RetriesExhausted, w') else (Inr r, w')))"

section \<open>Response parser (lines 108 and 113)\<close>

text \<open>
  \<^verbatim>\<open>String.prototype.split\<close> with a one-character separator: the empty string gives one
  empty piece, and n separators give n + 1 pieces.
\<close>

fun split_on :: "char \<Rightarrow> string \<Rightarrow> string list" where
  "split_on sep [] = [[]]"
| "split_on sep (c # cs) =
     (if c = sep then [] # split_on sep cs
      else (case split_on sep cs of
              [] \<Rightarrow> [[c]]
            | p # ps \<Rightarrow> (c # p) # ps))"

text \<open>
  \<^verbatim>\<open>trim\<close> removes white space and line terminators at both ends; among the characters
  below 256 these are tab, line feed, vertical tab, form feed, carriage return, space and
  the no-break space.
\<close>

definition is_space :: "char \<Rightarrow> bool" where
  "is_space c =
     (c \<in> set [CHR 0x09, CHR 0x0A, CHR 0x0B, CHR 0x0C, CHR 0x0D, CHR 0x20, CHR 0xA0])"

definition trim :: "string \<Rightarrow> string" where
  "trim s = rev (dropWhile is_space (rev (dropWhile is_space s)))"

definition parse :: "string \<Rightarrow> dataset" where
  "parse txt = map (split_on CHR '','') (split_on CHR 0x0A txt)"

section \<open>Accumulator (lines 115-123 and 140-147)\<close>

text \<open>The updater passed to \<^verbatim>\<open>setAllExtracted\<close> at lines 115-123; \<^verbatim>\<open>slice(1)\<close> is \<open>drop 1\<close>.\<close>

definition merge :: "dataset \<Rightarrow> dataset \<Rightarrow> dataset" where
  "merge rows prev = (if length prev = 0 then rows else prev @ drop 1 rows)"

text \<open>
  \<^verbatim>\<open>handleEditCell\<close>. When \<^verbatim>\<open>rowIdx\<close> is out of range, \<^verbatim>\<open>updated[rowIdx]\<close> is undefined and
  spreading it raises a TypeError. When \<^verbatim>\<open>colIdx\<close> is the row's length the assignment of line
  144 appends the cell; beyond that it also leaves holes, which are no strings, so that
  result is outside the table type and reported as such.
\<close>

datatype edit_error = SpreadOfUndefined | SparseRow

definition handleEditCell :: "nat \<Rightarrow> nat \<Rightarrow> string \<Rightarrow> dataset \<Rightarrow> edit_error + dataset" where
  "handleEditCell rowIdx colIdx v prev =
     (if rowIdx < length prev then
        (let r = prev ! rowIdx in
         if colIdx < length r then Inr (prev[rowIdx := r[colIdx := v]])
         else if colIdx = length r then Inr (prev[rowIdx := r @ [v]])
         else Inl SparseRow)
      else Inl SpreadOfUndefined)"

text \<open>
  The table changes only through these two updaters. React applies queued updaters one
  after the other, each to the result of the previous one; an updater that raises ends the
  sequence.
\<close>

datatype acc_op = Merge dataset | EditCell nat nat string

fun apply_op :: "acc_op \<Rightarrow> dataset \<Rightarrow> edit_error + dataset" where
  "apply_op (Merge rows) d = Inr (merge rows d)"
| "apply_op (EditCell rowIdx colIdx v) d = handleEditCell rowIdx colIdx v d"

fun apply_ops :: "acc_op list \<Rightarrow> dataset \<Rightarrow> edit_error + dataset" where
  "apply_ops [] d = Inr d"
| "apply_ops (x # xs) d =
     (case apply_op x d of
        Inl e \<Rightarrow> Inl e
      | Inr d' \<Rightarrow> apply_ops xs d')"

text \<open>
  Nothing in the code checks the width of a row or looks for a header. The two conditions
  below say when a sequence of updates keeps the width and when it brings no second copy
  of a row \<open>h\<close> into the table. Both ask that every edit addresses a cell that exists when
  it is applied. The first asks that the rows of a merged sequence after its first row
  have seven cells; the second that no merged sequence holds \<open>h\<close> after its first row and
  that no edit turns a row that is not \<open>h\<close> into \<open>h\<close>.
\<close>

fun widths_ok :: "acc_op list \<Rightarrow> dataset \<Rightarrow> bool" where
  "widths_ok [] d = True"
| "widths_ok (Merge rows # xs) d =
     (list_all (\<lambda>r. length r = 7) (drop 1 rows) \<and> widths_ok xs (merge rows d))"
| "widths_ok (EditCell rowIdx colIdx v # xs) d =
     (rowIdx < length d \<and> colIdx < length (d ! rowIdx) \<and>
      widths_ok xs (d[rowIdx := (d ! rowIdx)[colIdx := v]]))"

fun header_ok :: "row \<Rightarrow> acc_op list \<Rightarrow> dataset \<Rightarrow> bool" where
  "header_ok h [] d = True"
| "header_ok h (Merge rows # xs) d =
     (h \<notin> set (drop 1 rows) \<and> header_ok h xs (merge rows d))"
| "header_ok h (EditCell rowIdx colIdx v # xs) d =
     (rowIdx < length d \<and> colIdx < length (d ! rowIdx) \<and>
      ((d ! rowIdx)[colIdx := v] \<noteq> h \<or> d ! rowIdx = h) \<and>
      header_ok h xs (d[rowIdx := (d ! rowIdx)[colIdx := v]]))"

section \<open>Batch orchestrator (lines 23-137)\<close>

text \<open>
  Reading the payload (lines 101-108), operation by operation. A step that throws ends
  the evaluation with its error.
\<close>

definition andThen :: "js_error + 'a \<Rightarrow> ('a \<Rightarrow> js_error + 'b) \<Rightarrow> js_error + 'b" where
  "andThen m f = (case m of Inl e \<Rightarrow> Inl e | Inr v \<Rightarrow> f v)"

text \<open>
  \<^verbatim>\<open>v.name\<close> for the names \<^verbatim>\<open>candidates\<close>, \<^verbatim>\<open>content\<close>, \<^verbatim>\<open>parts\<close> and \<^verbatim>\<open>text\<close>: a TypeError on
  null and undefined, the member of an object if it has one, and undefined otherwise
  (arrays, strings, numbers and booleans have no member of these names).
\<close>

fun member :: "jsv \<Rightarrow> string \<Rightarrow> js_error + jsv" where
  "member JUndefined name = Inl TypeError"
| "member JNull name = Inl TypeError"
| "member (JObj ms) name =
     Inr (case map_of (rev ms) name of None \<Rightarrow> JUndefined | Some v \<Rightarrow> v)"
| "member v name = Inr JUndefined"

text \<open>\<^verbatim>\<open>v.length\<close>.\<close>

fun js_length :: "jsv \<Rightarrow> js_error + jsv" where
  "js_length JUndefined = Inl TypeError"
| "js_length JNull = Inl TypeError"
| "js_length (JArr vs) = Inr (JNum (of_nat (length vs)))"
| "js_length (JStr s) = Inr (JNum (of_nat (length s)))"
| "js_length (JObj ms) =
     Inr (case map_of (rev ms) ''length'' of None \<Rightarrow> JUndefined | Some v \<Rightarrow> v)"
| "js_length v = Inr JUndefined"

text \<open>\<^verbatim>\<open>v[0]\<close>.\<close>

fun element0 :: "jsv \<Rightarrow> js_error + jsv" where
  "element0 JUndefined = Inl TypeError"
| "element0 JNull = Inl TypeError"
| "element0 (JArr vs) = Inr (case vs of [] \<Rightarrow> JUndefined | v # _ \<Rightarrow> v)"
| "element0 (JStr s) = Inr (case s of [] \<Rightarrow> JUndefined | c # _ \<Rightarrow> JStr [c])"
| "element0 (JObj ms) =
     Inr (case map_of (rev ms) ''0'' of None \<Rightarrow> JUndefined | Some v \<Rightarrow> v)"
| "element0 v = Inr JUndefined"

text \<open>The value of \<open>v\<close> as a condition.\<close>

fun truthy :: "jsv \<Rightarrow> bool" where
  "truthy JUndefined = False"
| "truthy JNull = False"
| "truthy (JBool b) = b"
| "truthy (JNum n) = (n \<noteq> 0)"
| "truthy (JStr s) = (s \<noteq> [])"
| "truthy (JArr vs) = True"
| "truthy (JObj ms) = True"

text \<open>
  \<^verbatim>\<open>v > 0\<close>. Undefined compares as NaN, null as 0, true as 1 and false as 0. A string, an
  array or an object is first converted to a number by JavaScript; that conversion is not
  modelled and the comparison is left \<open>Undecided\<close>. The code compares a \<^verbatim>\<open>length\<close> only:
  that of an array or a string is a number, so the open case is reached only when
  \<^verbatim>\<open>candidates\<close> or \<^verbatim>\<open>parts\<close> is an object with a member \<^verbatim>\<open>length\<close> of such a kind.
\<close>

fun gt_zero :: "jsv \<Rightarrow> js_error + bool" where
  "gt_zero JUndefined = Inr False"
| "gt_zero JNull = Inr False"
| "gt_zero (JBool b) = Inr b"
| "gt_zero (JNum n) = Inr (0 < n)"
| "gt_zero v = Inl Undecided"

text \<open>\<^verbatim>\<open>v.trim()\<close>: only a string has a method \<^verbatim>\<open>trim\<close>.\<close>

fun js_trim :: "jsv \<Rightarrow> js_error + string" where
  "js_trim (JStr s) = Inr (trim s)"
| "js_trim v = Inl TypeError"

text \<open>The test of lines 101-107, a chain of \<^verbatim>\<open>&&\<close> read from the left.\<close>

definition has_parts :: "jsv \<Rightarrow> js_error + bool" where
  "has_parts result =
     andThen (member result ''candidates'') (\<lambda>cs.
       if \<not> truthy cs then Inr False
       else andThen (andThen (js_length cs) gt_zero) (\<lambda>some.
         if \<not> some then Inr False
         else andThen (andThen (element0 cs) (\<lambda>c. member c ''content'')) (\<lambda>ct.
           if \<not> truthy ct then Inr False
           else andThen (member ct ''parts'') (\<lambda>ps.
             if \<not> truthy ps then Inr False
             else andThen (js_length ps) gt_zero))))"

text \<open>Line 108: \<^verbatim>\<open>result.candidates[0].content.parts[0].text.trim()\<close>.\<close>

definition first_text :: "jsv \<Rightarrow> js_error + string" where
  "first_text result =
     andThen (member result ''candidates'') (\<lambda>cs.
       andThen (element0 cs) (\<lambda>c.
         andThen (member c ''content'') (\<lambda>ct.
           andThen (member ct ''parts'') (\<lambda>ps.
             andThen (element0 ps) (\<lambda>p.
               andThen (member p ''text'') js_trim)))))"

text \<open>
  The \<^verbatim>\<open>async\<close> callback assigned to \<^verbatim>\<open>reader.onloadend\<close> (lines 40-129). Its result is
  \<open>Inr ()\<close> when it reaches \<^verbatim>\<open>resolveReader()\<close> at line 128, and \<open>Inl e\<close> when it throws \<open>e\<close>
  before that: the promise of the callback is then rejected and \<^verbatim>\<open>resolveReader\<close> is never
  called.
\<close>

definition onloadend ::
  "net \<Rightarrow> image_file \<Rightarrow> app \<Rightarrow> world \<Rightarrow> (js_error + unit) \<times> app \<times> world" where
  "onloadend nw img st w =
     (case send nw img w of
        (Inl e, w') \<Rightarrow> (Inl e, st, w')
      | (Inr r, w') \<Rightarrow>
          (case json r of
             None \<Rightarrow> (Inl JsonFault, st, w')
           | Some result \<Rightarrow>
               (case has_parts result of
                  Inl e \<Rightarrow> (Inl e, st, w')
                | Inr True \<Rightarrow>
                    (case first_text result of
                       Inl e \<Rightarrow> (Inl e, st, w')
                     | Inr txt \<Rightarrow>
                         (let rows = parse txt
                          in (Inr (),
                              st\<lparr>extractedData := txt,
                                 allExtracted := merge rows (allExtracted st)\<rparr>,
                              w')))
                | Inr False \<Rightarrow>
                    (Inr (),
                     st\<lparr>error := ''Could not extract data. Please try another image.''\<rparr>,
                     w'))))"

text \<open>
  The \<^verbatim>\<open>for\<close> loop of lines 35-131. Each iteration awaits a promise that only
  \<^verbatim>\<open>resolveReader()\<close> settles, so the next image is started only after the callback of the
  previous one has reached line 128.
\<close>

fun for_images ::
  "net \<Rightarrow> image_file list \<Rightarrow> app \<Rightarrow> world \<Rightarrow> (js_error + unit) \<times> app \<times> world" where
  "for_images nw [] st w = (Inr (), st, w)"
| "for_images nw (img # rest) st w =
     (case onloadend nw img st w of
        (Inl e, st', w') \<Rightarrow> (Inl e, st', w')
      | (Inr u, st', w') \<Rightarrow> for_images nw rest st' w')"

text \<open>
  \<^verbatim>\<open>handleExtract\<close>. The promise awaited at line 39 is created with a resolve function only
  and the callback is not awaited by anyone, so an error thrown inside the callback never
  reaches the \<^verbatim>\<open>catch\<close> of line 132: the awaited promise stays pending, and neither line 133
  nor line 136 runs. The \<^verbatim>\<open>catch\<close> guards lines 36-39 alone, which raise nothing in this
  model. A run therefore either returns, or stays pending with the error that rejected the
  callback.
\<close>

datatype completion = Returned | Pending js_error

definition handleExtract :: "net \<Rightarrow> app \<Rightarrow> world \<Rightarrow> completion \<times> app \<times> world" where
  "handleExtract nw st w =
     (let st1 = st\<lparr>extractedData := [], error := []\<rparr>
      in if length (imageFiles st1) = 0 then
           (Returned,
            st1\<lparr>error := ''Please select or capture at least one image first.''\<rparr>, w)
         else
           (case for_images nw (imageFiles st1) (st1\<lparr>loading := True\<rparr>) w of
              (Inr u, st2, w2) \<Rightarrow> (Returned, st2\<lparr>loading := False\<rparr>, w2)
            | (Inl e, st2, w2) \<Rightarrow> (Pending e, st2, w2)))"

section \<open>Export adapter (lines 150-168)\<close>

text \<open>\<^verbatim>\<open>Array.prototype.join\<close>.\<close>

fun join :: "string \<Rightarrow> string list \<Rightarrow> string" where
  "join sep [] = []"
| "join sep [x] = x"
| "join sep (x # y # ys) = x @ sep @ join sep (y # ys)"

definition csvContent :: "dataset \<Rightarrow> string" where
  "csvContent d = join [CHR 0x0A] (join '','' headers # map (join '','') d)"

text \<open>
  \<^verbatim>\<open>handleDownloadCSV\<close> returns the new state and the text of the downloaded file, if one
  is offered.
\<close>

definition handleDownloadCSV :: "app \<Rightarrow> app \<times> string option" where
  "handleDownloadCSV st =
     (if length (allExtracted st) = 0 then (st\<lparr>error := ''No data to download.''\<rparr>, None)
      else (st, Some (csvContent (allExtracted st))))"

section \<open>Sample inputs\<close>

definition img1 :: image_file where
  "img1 = \<lparr>mimeType = ''image/png'', base64Data = ''AAAA''\<rparr>"

definition img2 :: image_file where
  "img2 = \<lparr>mimeType = ''image/jpeg'', base64Data = ''BBBB''\<rparr>"

definition w0 :: world where
  "w0 = \<lparr>calls = 0, trace = []\<rparr>"

definition st0 :: app where
  "st0 = \<lparr>imageFiles = [img1, img2], extractedData = [], loading = False, error = [],
          allExtracted = []\<rparr>"

text \<open>
  Answers of the service: \<^verbatim>\<open>{"candidates":[{"content":{"parts":[{"text":t}]}}]}\<close>, an object
  without candidates, and four payloads on which reading the text throws: a part without
  text, the body \<^verbatim>\<open>null\<close>, the candidates \<^verbatim>\<open>[null]\<close> and a body that is not JSON.
\<close>

definition payload :: "jsv \<Rightarrow> jsv" where
  "payload p =
     JObj [(''candidates'', JArr [JObj [(''content'', JObj [(''parts'', JArr [p])])]])]"

definition answer :: "string \<Rightarrow> fetch_result" where
  "answer t = Response \<lparr>status = 200, json = Some (payload (JObj [(''text'', JStr t)]))\<rparr>"

definition no_content :: fetch_result where
  "no_content = Response \<lparr>status = 200, json = Some (JObj [])\<rparr>"

definition part_without_text :: fetch_result where
  "part_without_text = Response \<lparr>status = 200, json = Some (payload (JObj []))\<rparr>"

definition null_body :: fetch_result where
  "null_body = Response \<lparr>status = 200, json = Some JNull\<rparr>"

definition null_candidate :: fetch_result where
  "null_candidate =
     Response \<lparr>status = 200, json = Some (JObj [(''candidates'', JArr [JNull])])\<rparr>"

definition not_json :: fetch_result where
  "not_json = Response \<lparr>status = 200, json = None\<rparr>"

definition failure :: "nat \<Rightarrow> fetch_result" where
  "failure code = Response \<lparr>status = code, json = None\<rparr>"

text \<open>Networks: how the service answers the successive calls of a session.\<close>

definition two_answers :: net where
  "two_answers n = (if n = 0 then answer ''H1,H2\<newline>A,B'' else answer ''H1,H2\<newline>C,D'')"

definition always_429 :: net where
  "always_429 n = failure 429"

definition always_down :: net where
  "always_down n = Fault ''Failed to fetch''"

definition once_500 :: net where
  "once_500 n = (if n = 0 then failure 500 else answer ''H1,H2\<newline>A,B'')"

definition first_answer :: "fetch_result \<Rightarrow> net" where
  "first_answer fr n = (if n = 0 then fr else answer ''H1,H2\<newline>A,B'')"

definition answer_then_429 :: net where
  "answer_then_429 n = (if n = 0 then answer ''H1,H2\<newline>A,B'' else failure 429)"

text \<open>
  A table of two rows; a sequence of updates with seven-field answers; the updates of the
  two-image scenario with an edit between them; and two sequences that leave the row
  \<^verbatim>\<open>["H1","H2"]\<close> twice in the table, one by an answer that starts with a line of prose
  and one by an edit.
\<close>

definition small_table :: dataset where
  "small_table = [[''H1'', ''H2''], [''A'', ''B'']]"

definition sample_ops :: "acc_op list" where
  "sample_ops =
     [Merge (parse (join '','' headers @ ''\<newline>17,Ada,0801,N/A,Lagos,Ikeja,1 Main St'')),
      EditCell 1 1 ''Ada L.'',
      Merge (parse (join '','' headers @ ''\<newline>18,Bob,0802,N/A,Abuja,Garki,2 High St''))]"

definition scenario_ops :: "acc_op list" where
  "scenario_ops =
     [Merge (parse ''H1,H2\<newline>A,B''), EditCell 1 0 ''Z'', Merge (parse ''H1,H2\<newline>C,D'')]"

definition prose_ops :: "acc_op list" where
  "prose_ops =
     [Merge (parse ''H1,H2\<newline>A,B''), Merge (parse ''Here is the CSV:\<newline>H1,H2\<newline>C,D'')]"

definition retype_ops :: "acc_op list" where
  "retype_ops = [Merge (parse ''H1,H2\<newline>H1,B''), EditCell 1 1 ''H2'']"

section \<open>Properties of the retry loop\<close>

lemma not_ok_429: "status r = 429 \<Longrightarrow> \<not> ok r"
  by (simp add: ok_def)

lemma retry_loop_throttled:
  assumes "retries < maxRetries" and "nw (calls w) = Response r" and "status r = 429"
  shows "retry_loop nw img retries a w =
           retry_loop nw img (retries + 1) (Some r)
             (wait (initialDelay * 2 ^ retries) (snd (fetch nw img w)))"
  using assms by (subst retry_loop.simps) (simp add: fetch_def not_ok_429)

lemma retry_loop_threw:
  assumes "retries < maxRetries - 1" and "try_body (nw (calls w)) a = Threw e a'"
  shows "retry_loop nw img retries a w =
           retry_loop nw img (retries + 1) a'
             (wait (initialDelay * 2 ^ retries) (snd (fetch nw img w)))"
proof -
  from assms(1) have "retries < maxRetries" by simp
  with assms show ?thesis by (subst retry_loop.simps) (simp add: fetch_def)
qed

lemma retry_loop_rethrow:
  assumes "retries < maxRetries" and "\<not> retries < maxRetries - 1"
    and "try_body (nw (calls w)) a = Threw e a'"
  shows "retry_loop nw img retries a w = (Inl e, snd (fetch nw img w))"
  using assms by (subst retry_loop.simps) (simp add: fetch_def)

lemma retry_loop_break:
  assumes "retries < maxRetries" and "nw (calls w) = Response r" and "ok r"
  shows "retry_loop nw img retries a w = (Inr (Some r), snd (fetch nw img w))"
  using assms by (subst retry_loop.simps) (simp add: fetch_def)

lemma retry_loop_exit:
  assumes "\<not> retries < maxRetries"
  shows "retry_loop nw img retries a w = (Inr a, w)"
  using assms by (subst retry_loop.simps) simp

lemma send_all_throttled:
  assumes "\<forall>i<maxRetries. \<exists>r. nw (calls w + i) = Response r \<and> status r = 429"
  shows "send nw img w =
           (Inl RetriesExhausted,
            w\<lparr>calls := calls w + 5,
              trace := trace w @
                [Fetch img, Wait 1000, Fetch img, Wait 2000, Fetch img, Wait 4000,
                 Fetch img, Wait 8000, Fetch img, Wait 16000]\<rparr>)"
proof -
  have at: "\<exists>r. nw (calls w + i) = Response r \<and> status r = 429" if "i < 5" for i
    using assms that by (simp add: maxRetries_def)
  from at[of 0] obtain r0 where r0: "nw (calls w) = Response r0" "status r0 = 429" by auto
  from at[of 1] obtain r1 where r1: "nw (Suc (calls w)) = Response r1" "status r1 = 429" by auto
  from at[of 2] obtain r2 where r2: "nw (Suc (Suc (calls w))) = Response r2" "status r2 = 429"
    by auto
  from at[of 3] obtain r3 where
    r3: "nw (Suc (Suc (Suc (calls w)))) = Response r3" "status r3 = 429"
    by (auto simp: numeral_3_eq_3)
  from at[of 4] obtain r4 where
    r4: "nw (Suc (Suc (Suc (Suc (calls w))))) = Response r4" "status r4 = 429"
    by (auto simp: eval_nat_numeral)
  show ?thesis
    by (simp add: send_def retry_loop.simps maxRetries_def initialDelay_def fetch_def wait_def
          r0 r1 r2 r3 r4 ok_def)
qed

lemma send_all_faults:
  assumes "\<forall>i<maxRetries. nw (calls w + i) = Fault (msg i)"
  shows "send nw img w =
           (Inl (Unreachable (msg 4)),
            w\<lparr>calls := calls w + 5,
              trace := trace w @
                [Fetch img, Wait 1000, Fetch img, Wait 2000, Fetch img, Wait 4000,
                 Fetch img, Wait 8000, Fetch img]\<rparr>)"
proof -
  have at: "nw (calls w + i) = Fault (msg i)" if "i < 5" for i
    using assms that by (simp add: maxRetries_def)
  from at[of 0] have f0: "nw (calls w) = Fault (msg 0)" by simp
  from at[of 1] have f1: "nw (Suc (calls w)) = Fault (msg 1)" by simp
  from at[of 2] have f2: "nw (Suc (Suc (calls w))) = Fault (msg 2)" by simp
  from at[of 3] have f3: "nw (Suc (Suc (Suc (calls w)))) = Fault (msg 3)"
    by (simp add: numeral_3_eq_3)
  from at[of 4] have f4: "nw (Suc (Suc (Suc (Suc (calls w))))) = Fault (msg 4)"
    by (simp add: eval_nat_numeral)
  show ?thesis
    by (simp add: send_def retry_loop.simps maxRetries_def initialDelay_def fetch_def wait_def
          f0 f1 f2 f3 f4)
qed

lemma retry_loop_fault:
  assumes "retries < maxRetries - 1" and "nw (calls w) = Fault m"
  shows "retry_loop nw img retries a w =
           retry_loop nw img (retries + 1) a
             (wait (initialDelay * 2 ^ retries) (snd (fetch nw img w)))"
  using assms by (intro retry_loop_threw) simp_all

text \<open>
  A failure status other than 429 is retried too, as long as the attempt is not the last:
  the error thrown at line 84 is caught at line 86.
\<close>

lemma retry_loop_status_error:
  assumes "retries < maxRetries - 1" and "nw (calls w) = Response r"
    and "\<not> ok r" and "status r \<noteq> 429"
  shows "retry_loop nw img retries a w =
           retry_loop nw img (retries + 1) (Some r)
             (wait (initialDelay * 2 ^ retries) (snd (fetch nw img w)))"
  using assms by (intro retry_loop_threw) simp_all

section \<open>Properties of the accumulator, the batch loop and the export\<close>

lemma merge_empty: "merge rows [] = rows"
  by (simp add: merge_def)

lemma merge_nonempty: "prev \<noteq> [] \<Longrightarrow> merge rows prev = prev @ drop 1 rows"
  by (simp add: merge_def)

lemma merge_keeps: "take (length prev) (merge rows prev) = prev"
  by (simp add: merge_def)

lemma for_images_append:
  "for_images nw (xs @ ys) st w =
     (case for_images nw xs st w of
        (Inl e, st', w') \<Rightarrow> (Inl e, st', w')
      | (Inr u, st', w') \<Rightarrow> for_images nw ys st' w')"
  by (induction xs arbitrary: st w) (auto split: prod.splits sum.splits)

lemma onloadend_abort:
  "send nw img w = (Inl e, w') \<Longrightarrow> onloadend nw img st w = (Inl e, st, w')"
  by (simp add: onloadend_def)

lemma for_images_abort:
  assumes "for_images nw pre st w = (Inr (), st1, w1)" and "send nw img w1 = (Inl e, w2)"
  shows "for_images nw (pre @ img # rest) st w = (Inl e, st1, w2)"
  using assms by (simp add: for_images_append onloadend_abort)

text \<open>
  When the transport fails for an image, the run stays pending in the state and the world
  of that moment: the images after it leave no trace.
\<close>

lemma handleExtract_abort:
  assumes "imageFiles st = pre @ img # rest"
      and "for_images nw pre (st\<lparr>extractedData := [], error := [], loading := True\<rparr>) w =
             (Inr (), st1, w1)"
      and "send nw img w1 = (Inl e, w2)"
  shows "handleExtract nw st w = (Pending e, st1, w2)"
proof -
  have "for_images nw (pre @ img # rest)
      (st\<lparr>extractedData := [], error := [], loading := True\<rparr>) w = (Inl e, st1, w2)"
    using assms(2,3) by (rule for_images_abort)
  then show ?thesis
    using assms(1) by (simp add: handleExtract_def)
qed

lemma onloadend_frame:
  assumes "onloadend nw img st w = (x, st', w')"
  shows "imageFiles st' = imageFiles st \<and> loading st' = loading st \<and>
         take (length (allExtracted st)) (allExtracted st') = allExtracted st"
  using assms
  by (auto simp: onloadend_def Let_def merge_keeps
      split: prod.splits sum.splits option.splits bool.splits)

lemma take_take_prefix:
  assumes "take (length a) b = a" and "take (length b) c = b"
  shows "take (length a) c = a"
proof -
  from arg_cong[OF assms(1), of length] have "length a \<le> length b" by simp
  then have "take (length a) c = take (length a) (take (length b) c)" by (simp add: min_def)
  with assms show ?thesis by simp
qed

lemma for_images_frame:
  assumes "for_images nw imgs st w = (x, st', w')"
  shows "imageFiles st' = imageFiles st \<and> loading st' = loading st \<and>
         take (length (allExtracted st)) (allExtracted st') = allExtracted st"
  using assms
proof (induction imgs arbitrary: st w)
  case Nil
  then show ?case by simp
next
  case (Cons img rest)
  obtain y st1 w1 where step: "onloadend nw img st w = (y, st1, w1)"
    by (metis prod_cases3)
  note fr = onloadend_frame[OF step]
  show ?case
  proof (cases y)
    case (Inl e)
    with Cons.prems step fr show ?thesis by simp
  next
    case (Inr u)
    with Cons.prems step have "for_images nw rest st1 w1 = (x, st', w')" by simp
    from Cons.IH[OF this] fr show ?thesis by (auto intro: take_take_prefix)
  qed
qed

lemma set_join: "set (join sep xs) \<subseteq> set sep \<union> \<Union> (set ` set xs)"
  by (induction sep xs rule: join.induct) auto

lemma split_on_no_sep: "sep \<notin> set x \<Longrightarrow> split_on sep x = [x]"
  by (induction x) auto

lemma split_on_line: "sep \<notin> set x \<Longrightarrow> split_on sep (x @ sep # rest) = x # split_on sep rest"
  by (induction x) auto

lemma split_on_join:
  assumes "xs \<noteq> []" and "\<forall>x\<in>set xs. sep \<notin> set x"
  shows "split_on sep (join [sep] xs) = xs"
  using assms
proof (induction "[sep]" xs rule: join.induct)
  case 1
  then show ?case by simp
next
  case (2 x)
  then show ?case by (simp add: split_on_no_sep)
next
  case (3 x y ys)
  then show ?case by (simp add: split_on_line)
qed

lemma header_line: "join '','' headers =
    ''Order Number,Recipient's Name,Phone Number,Standby Phone,State,City,Recipient Street''"
  by (simp add: headers_def)

lemma csv_lines:
  assumes "\<forall>r\<in>set d. \<forall>c\<in>set r. CHR 0x0A \<notin> set c"
  shows "split_on CHR 0x0A (csvContent d) = join '','' headers # map (join '','') d"
proof -
  have "CHR 0x0A \<notin> set (join '','' r)" if "r \<in> set d" for r
    using set_join[of "'',''" r] assms that by auto
  moreover have "CHR 0x0A \<notin> set (join '','' headers)"
    by (simp add: header_line)
  ultimately show ?thesis
    unfolding csvContent_def by (intro split_on_join) auto
qed

lemma edit_in_range:
  assumes "r < length d" and "c < length (d ! r)"
  shows "handleEditCell r c v d = Inr (d[r := (d ! r)[c := v]])"
  using assms by (simp add: handleEditCell_def)

lemma widths_kept:
  assumes "widths_ok xs d" and "list_all (\<lambda>r. length r = 7) (drop 1 d)"
  shows "\<exists>d'. apply_ops xs d = Inr d' \<and> list_all (\<lambda>r. length r = 7) (drop 1 d')"
  using assms
proof (induction xs arbitrary: d)
  case Nil
  then show ?case by simp
next
  case (Cons x xs)
  show ?case
  proof (cases x)
    case (Merge rows)
    with Cons.prems have rows: "list_all (\<lambda>r. length r = 7) (drop 1 rows)"
      and ok': "widths_ok xs (merge rows d)" by simp_all
    have inv: "list_all (\<lambda>r. length r = 7) (drop 1 (merge rows d))"
      using rows Cons.prems(2) by (cases d) (simp_all add: merge_def)
    from Cons.IH[OF ok' inv] Merge show ?thesis by simp
  next
    case (EditCell i j v)
    let ?d = "d[i := (d ! i)[j := v]]"
    from EditCell Cons.prems have rng: "i < length d" "j < length (d ! i)"
      and ok': "widths_ok xs ?d" by simp_all
    have inv: "list_all (\<lambda>r. length r = 7) (drop 1 ?d)"
      using Cons.prems(2) rng by (auto simp: list_all_length nth_list_update)
    from Cons.IH[OF ok' inv] EditCell rng show ?thesis by (simp add: edit_in_range)
  qed
qed

lemma count_list_update:
  assumes "i < length d" and "x \<noteq> h \<or> d ! i = h"
  shows "count_list (d[i := x]) h \<le> count_list d h"
  using assms
proof (induction d arbitrary: i)
  case Nil
  then show ?case by simp
next
  case (Cons y ys)
  show ?case
  proof (cases i)
    case 0
    with Cons.prems show ?thesis by auto
  next
    case (Suc k)
    with Cons.prems have "k < length ys" and "x \<noteq> h \<or> ys ! k = h" by simp_all
    from Cons.IH[OF this] Suc show ?thesis by simp
  qed
qed

lemma count_list_absent: "h \<notin> set xs \<Longrightarrow> count_list xs h = 0"
  by (induction xs) auto

lemma count_list_merge:
  assumes "h \<notin> set (drop 1 rows)" and "count_list d h \<le> 1"
  shows "count_list (merge rows d) h \<le> 1"
proof (cases d)
  case Nil
  show ?thesis
  proof (cases rows)
    case Nil
    with \<open>d = []\<close> show ?thesis by (simp add: merge_def)
  next
    case (Cons r rs)
    with assms(1) have "count_list rs h = 0" by (simp add: count_list_absent)
    with Cons \<open>d = []\<close> show ?thesis by (simp add: merge_def)
  qed
next
  case (Cons y ys)
  from assms(1) have "count_list (drop 1 rows) h = 0" by (rule count_list_absent)
  with Cons assms(2) show ?thesis by (auto simp: merge_def split: if_splits)
qed

lemma header_once:
  assumes "header_ok h xs d" and "count_list d h \<le> 1"
  shows "\<exists>d'. apply_ops xs d = Inr d' \<and> count_list d' h \<le> 1"
  using assms
proof (induction xs arbitrary: d)
  case Nil
  then show ?case by simp
next
  case (Cons x xs)
  show ?case
  proof (cases x)
    case (Merge rows)
    with Cons.prems have out: "h \<notin> set (drop 1 rows)"
      and ok': "header_ok h xs (merge rows d)" by simp_all
    from Cons.IH[OF ok' count_list_merge[OF out Cons.prems(2)]] Merge
    show ?thesis by simp
  next
    case (EditCell i j v)
    let ?d = "d[i := (d ! i)[j := v]]"
    from EditCell Cons.prems have rng: "i < length d" "j < length (d ! i)"
      and new: "(d ! i)[j := v] \<noteq> h \<or> d ! i = h"
      and ok': "header_ok h xs ?d" by simp_all
    from count_list_update[OF rng(1) new] Cons.prems(2)
    have "count_list ?d h \<le> 1" by simp
    from Cons.IH[OF ok' this] EditCell rng show ?thesis by (simp add: edit_in_range)
  qed
qed

text \<open>
  When the test of lines 101-107 is false, the callback sets the error message, leaves the
  table and the extracted text alone and resolves, and the loop goes on with the images
  after it.
\<close>

lemma empty_payload_continues:
  assumes "for_images nw pre st w = (Inr (), st1, w1)"
      and "send nw img w1 = (Inr r, w2)"
      and "json r = Some res"
      and "has_parts res = Inr False"
  shows "for_images nw (pre @ img # rest) st w =
           for_images nw rest
             (st1\<lparr>error := ''Could not extract data. Please try another image.''\<rparr>) w2"
proof -
  have "onloadend nw img st1 w1 =
      (Inr (), st1\<lparr>error := ''Could not extract data. Please try another image.''\<rparr>, w2)"
    using assms(2-4) by (simp add: onloadend_def)
  then show ?thesis
    using assms(1) by (simp add: for_images_append)
qed

text \<open>
  When the transport fails for an image, the table of the pending run is the table as it
  was after the images before it, and the rows held before the batch are still its first
  rows.
\<close>

lemma abort_keeps_rows:
  assumes "imageFiles st = pre @ img # rest"
      and "for_images nw pre (st\<lparr>extractedData := [], error := [], loading := True\<rparr>) w =
             (Inr (), st1, w1)"
      and "send nw img w1 = (Inl e, w2)"
  shows "allExtracted (fst (snd (handleExtract nw st w))) = allExtracted st1 \<and>
         take (length (allExtracted st)) (allExtracted (fst (snd (handleExtract nw st w)))) =
           allExtracted st"
proof -
  have run: "handleExtract nw st w = (Pending e, st1, w2)"
    using assms by (rule handleExtract_abort)
  from for_images_frame[OF assms(2)]
  have "take (length (allExtracted st)) (allExtracted st1) = allExtracted st"
    by simp
  with run show ?thesis by simp
qed

text \<open>The definitions unfolded when a run is evaluated on a sample input.\<close>

lemmas run_defs = handleExtract_def onloadend_def send_def retry_loop.simps maxRetries_def
  initialDelay_def fetch_def wait_def ok_def has_parts_def first_text_def andThen_def payload_def trim_def is_space_def
  parse_def merge_def Let_def

section \<open>The claims\<close>

text \<open>
  Claim C1. Merging into an empty table adopts the whole incoming sequence; merging into a
  non-empty table appends the incoming sequence without its first row and keeps the
  existing rows where they were. A batch of two images answered \<^verbatim>\<open>"H1,H2\nA,B"\<close> and
  \<^verbatim>\<open>"H1,H2\nC,D"\<close>, started on the empty table, returns with the table
  \<^verbatim>\<open>[["H1","H2"],["A","B"],["C","D"]]\<close>.
\<close>

theorem C1_merge_policy:
  "merge rows [] = rows \<and>
   (prev \<noteq> [] \<longrightarrow>
      merge rows prev = prev @ drop 1 rows \<and> take (length prev) (merge rows prev) = prev) \<and>
   fst (handleExtract two_answers st0 w0) = Returned \<and>
   allExtracted (fst (snd (handleExtract two_answers st0 w0))) =
     [[''H1'', ''H2''], [''A'', ''B''], [''C'', ''D'']]"
proof -
  have "fst (handleExtract two_answers st0 w0) = Returned"
    by code_simp
  moreover have "allExtracted (fst (snd (handleExtract two_answers st0 w0))) =
      [[''H1'', ''H2''], [''A'', ''B''], [''C'', ''D'']]"
    by code_simp
  ultimately show ?thesis
    by (simp add: merge_empty merge_nonempty)
qed

text \<open>The second merge of that batch, as an instance of the policy.\<close>

theorem C1_merge_policy_witness:
  "[[''H1'', ''H2''], [''A'', ''B'']] \<noteq> [] \<and>
   merge (parse ''H1,H2\<newline>C,D'') [[''H1'', ''H2''], [''A'', ''B'']] =
     [[''H1'', ''H2''], [''A'', ''B''], [''C'', ''D'']]"
  using C1_merge_policy [of "parse ''H1,H2\<newline>C,D''" "[[''H1'', ''H2''], [''A'', ''B'']]"]
  by (simp add: parse_def)

text \<open>
  Claim C2. A status that is neither a success nor 429 is thrown at line 84, inside the
  \<^verbatim>\<open>try\<close> block, and so lands in the \<^verbatim>\<open>catch\<close> of line 86: the request is retried after
  a backoff delay. Here the first answer has status 500 and the second is a success; the
  transport waits 1000 ms, calls again and delivers the second answer.
\<close>

theorem C2_status_error_is_retried:
  "send once_500 img1 w0 =
     (Inr \<lparr>status = 200, json = Some (payload (JObj [(''text'', JStr ''H1,H2\<newline>A,B'')]))\<rparr>,
      \<lparr>calls = 2, trace = [Fetch img1, Wait 1000, Fetch img1]\<rparr>)"
  by code_simp

text \<open>
  Claim C3. With \<open>maxRetries = 5\<close> and \<open>initialDelay = 1000\<close>, a request answered with
  status 429 on each of its attempts is attempted five times, waits
  1000, 2000, 4000, 8000 and 16000 ms (\<open>initialDelay * 2 ^ attempt\<close>) after the attempts, is
  not attempted a sixth time and fails with the retries-exhausted error.
\<close>

theorem C3_throttled_backoff:
  assumes "\<forall>i<maxRetries. \<exists>r. nw (calls w + i) = Response r \<and> status r = 429"
  shows "maxRetries = 5 \<and> initialDelay = 1000 \<and>
         map (\<lambda>attempt. initialDelay * 2 ^ attempt) [0..<maxRetries] =
           [1000, 2000, 4000, 8000, 16000] \<and>
         send nw img w =
           (Inl RetriesExhausted,
            w\<lparr>calls := calls w + 5,
              trace := trace w @
                [Fetch img, Wait 1000, Fetch img, Wait 2000, Fetch img, Wait 4000,
                 Fetch img, Wait 8000, Fetch img, Wait 16000]\<rparr>)"
proof -
  have "map (\<lambda>attempt. initialDelay * 2 ^ attempt) [0..<maxRetries] =
      [1000, 2000, 4000, 8000, 16000]"
    by (simp add: maxRetries_def initialDelay_def upt_rec)
  with send_all_throttled[OF assms, of img] show ?thesis
    by (simp add: maxRetries_def initialDelay_def)
qed

text \<open>A service that answers 429 to every call.\<close>

theorem C3_throttled_backoff_witness:
  "send always_429 img1 w0 =
     (Inl RetriesExhausted,
      \<lparr>calls = 5,
        trace = [Fetch img1, Wait 1000, Fetch img1, Wait 2000, Fetch img1, Wait 4000,
                 Fetch img1, Wait 8000, Fetch img1, Wait 16000]\<rparr>)"
proof -
  have "\<forall>i<maxRetries. \<exists>r. always_429 (calls w0 + i) = Response r \<and> status r = 429"
    by (simp add: always_429_def failure_def)
  from C3_throttled_backoff [OF this, of img1] show ?thesis
    by (simp add: w0_def)
qed

text \<open>
  Claim C4. A fault of \<^verbatim>\<open>fetch\<close> is handled like a 429 answer as long as the attempt is
  not the last one: for each value of the retry counter below \<open>maxRetries - 1\<close> both wait
  \<open>initialDelay * 2 ^ retries\<close> and go to the next attempt. A request that faults on every
  attempt is attempted five times, as many as one throttled on every attempt, with the same
  delays between the attempts, and the fault of the fifth attempt is what the transport
  raises. The runs differ only in the 16000 ms that the throttling path waits after its
  last attempt.
\<close>

theorem C4_fault_backoff:
  assumes "\<forall>i<maxRetries. nwF (calls w + i) = Fault (msg i)"
      and "\<forall>i<maxRetries. \<exists>r. nwT (calls w + i) = Response r \<and> status r = 429"
  shows "(\<forall>k a w' m. k < maxRetries - 1 \<and> nw (calls w') = Fault m \<longrightarrow>
            retry_loop nw img k a w' =
              retry_loop nw img (k + 1) a (wait (initialDelay * 2 ^ k) (snd (fetch nw img w')))) \<and>
         (\<forall>k a w' r. k < maxRetries - 1 \<and> nw (calls w') = Response r \<and> status r = 429 \<longrightarrow>
            retry_loop nw img k a w' =
              retry_loop nw img (k + 1) (Some r)
                (wait (initialDelay * 2 ^ k) (snd (fetch nw img w')))) \<and>
         send nwF img w =
           (Inl (Unreachable (msg 4)),
            w\<lparr>calls := calls w + 5,
              trace := trace w @
                [Fetch img, Wait 1000, Fetch img, Wait 2000, Fetch img, Wait 4000,
                 Fetch img, Wait 8000, Fetch img]\<rparr>) \<and>
         calls (snd (send nwF img w)) = calls (snd (send nwT img w)) \<and>
         trace (snd (send nwT img w)) = trace (snd (send nwF img w)) @ [Wait 16000]"
proof -
  have step_fault: "\<forall>k a w' m. k < maxRetries - 1 \<and> nw (calls w') = Fault m \<longrightarrow>
      retry_loop nw img k a w' =
        retry_loop nw img (k + 1) a (wait (initialDelay * 2 ^ k) (snd (fetch nw img w')))"
  proof (intro allI impI)
    fix k a m and w' :: world
    assume "k < maxRetries - 1 \<and> nw (calls w') = Fault m"
    then show "retry_loop nw img k a w' =
        retry_loop nw img (k + 1) a (wait (initialDelay * 2 ^ k) (snd (fetch nw img w')))"
      by (intro retry_loop_fault) simp_all
  qed
  have step_429: "\<forall>k a w' r. k < maxRetries - 1 \<and> nw (calls w') = Response r \<and> status r = 429 \<longrightarrow>
      retry_loop nw img k a w' =
        retry_loop nw img (k + 1) (Some r)
          (wait (initialDelay * 2 ^ k) (snd (fetch nw img w')))"
  proof (intro allI impI)
    fix k a r and w' :: world
    assume h: "k < maxRetries - 1 \<and> nw (calls w') = Response r \<and> status r = 429"
    then have "k < maxRetries" by (simp add: maxRetries_def)
    with h show "retry_loop nw img k a w' =
        retry_loop nw img (k + 1) (Some r)
          (wait (initialDelay * 2 ^ k) (snd (fetch nw img w')))"
      by (intro retry_loop_throttled) simp_all
  qed
  note runF = send_all_faults[OF assms(1), of img]
  note runT = send_all_throttled[OF assms(2), of img]
  from step_fault step_429 show ?thesis
    by (simp only: runF runT) simp
qed

text \<open>A service that cannot be reached, beside one that answers 429 to every call.\<close>

theorem C4_fault_backoff_witness:
  "send always_down img1 w0 =
     (Inl (Unreachable ''Failed to fetch''),
      \<lparr>calls = 5,
        trace = [Fetch img1, Wait 1000, Fetch img1, Wait 2000, Fetch img1, Wait 4000,
                 Fetch img1, Wait 8000, Fetch img1]\<rparr>) \<and>
   calls (snd (send always_429 img1 w0)) = 5 \<and>
   retry_loop always_down img1 0 None w0 =
     retry_loop always_down img1 1 None (wait 1000 (snd (fetch always_down img1 w0)))"
proof -
  have hF: "\<forall>i<maxRetries. always_down (calls w0 + i) = Fault ((\<lambda>i. ''Failed to fetch'') i)"
    by (simp add: always_down_def)
  have hT: "\<forall>i<maxRetries. \<exists>r. always_429 (calls w0 + i) = Response r \<and> status r = 429"
    by (simp add: always_429_def failure_def)
  note c4 = C4_fault_backoff [OF hF hT, of always_down img1]
  from c4[THEN conjunct2, THEN conjunct2, THEN conjunct1] have run: "send always_down img1 w0 =
     (Inl (Unreachable ''Failed to fetch''),
      \<lparr>calls = 5,
        trace = [Fetch img1, Wait 1000, Fetch img1, Wait 2000, Fetch img1, Wait 4000,
                 Fetch img1, Wait 8000, Fetch img1]\<rparr>)"
    by (simp add: w0_def)
  from c4[THEN conjunct2, THEN conjunct2, THEN conjunct2, THEN conjunct1]
  have same: "calls (snd (send always_429 img1 w0)) = calls (snd (send always_down img1 w0))"
    by simp
  from c4[THEN conjunct1] have "0 < maxRetries - 1 \<and> always_down (calls w0) = Fault ''Failed to fetch'' \<longrightarrow>
     retry_loop always_down img1 0 None w0 =
       retry_loop always_down img1 (0 + 1) None
         (wait (initialDelay * 2 ^ 0) (snd (fetch always_down img1 w0)))"
    by blast
  then have step: "retry_loop always_down img1 0 None w0 =
     retry_loop always_down img1 1 None (wait 1000 (snd (fetch always_down img1 w0)))"
    by (simp add: maxRetries_def initialDelay_def always_down_def)
  from run same step show ?thesis by simp
qed

text \<open>
  Claim C5 as stated fails in both halves. No code checks the width of a row: the answer
  \<^verbatim>\<open>"H1,H2\nA,B"\<close> merged into the empty table leaves a row of two cells after the header.
  No code looks for a header either: the merge drops the first row of a later answer,
  whatever it is, so an answer that starts with a line of prose brings its header row
  into the table as a second copy, and an edit can write one more.
\<close>

theorem C5_invariant_counterexample:
  "apply_ops [Merge (parse ''H1,H2\<newline>A,B'')] [] = Inr [[''H1'', ''H2''], [''A'', ''B'']] \<and>
   length ([[''H1'', ''H2''], [''A'', ''B'']] ! 1) \<noteq> 7 \<and>
   apply_ops prose_ops [] =
     Inr [[''H1'', ''H2''], [''A'', ''B''], [''H1'', ''H2''], [''C'', ''D'']] \<and>
   count_list [[''H1'', ''H2''], [''A'', ''B''], [''H1'', ''H2''], [''C'', ''D'']] [''H1'', ''H2''] = 2 \<and>
   apply_ops retype_ops [] = Inr [[''H1'', ''H2''], [''H1'', ''H2'']] \<and>
   count_list [[''H1'', ''H2''], [''H1'', ''H2'']] [''H1'', ''H2''] = 2"
  by (simp add: prose_ops_def retype_ops_def parse_def merge_def handleEditCell_def)

text \<open>
  Claim C5, amended. Take any sequence of merges and edits, applied to the empty table, in
  which every edit addresses an existing cell. If the rows after the first of every merged
  sequence have seven cells, then every row of the table after the first has seven cells.
  And for any row \<open>h\<close>: if no merged sequence holds \<open>h\<close> after its first row and no edit
  turns another row into \<open>h\<close>, then the table holds \<open>h\<close> at most once, however many
  sequences were merged.
\<close>

theorem C5_invariant_amended:
  "(widths_ok xs [] \<longrightarrow>
      (\<exists>d. apply_ops xs [] = Inr d \<and> list_all (\<lambda>r. length r = 7) (drop 1 d))) \<and>
   (header_ok h xs [] \<longrightarrow>
      (\<exists>d. apply_ops xs [] = Inr d \<and> count_list d h \<le> 1))"
proof (intro conjI impI)
  assume "widths_ok xs []"
  then show "\<exists>d. apply_ops xs [] = Inr d \<and> list_all (\<lambda>r. length r = 7) (drop 1 d)"
    by (rule widths_kept) simp
next
  assume "header_ok h xs []"
  then show "\<exists>d. apply_ops xs [] = Inr d \<and> count_list d h \<le> 1"
    by (rule header_once) simp
qed

text \<open>
  Two seven-field answers with an edit between them keep the width; the two answers of the
  scenario with an edit between them keep \<^verbatim>\<open>["H1","H2"]\<close> single.
\<close>

theorem C5_invariant_amended_witness:
  "(\<exists>d. apply_ops sample_ops [] = Inr d \<and> list_all (\<lambda>r. length r = 7) (drop 1 d)) \<and>
   (\<exists>d. apply_ops scenario_ops [] = Inr d \<and> count_list d [''H1'', ''H2''] \<le> 1) \<and>
   apply_ops scenario_ops [] = Inr [[''H1'', ''H2''], [''Z'', ''B''], [''C'', ''D'']]"
proof -
  have w: "widths_ok sample_ops []"
    by (simp add: sample_ops_def headers_def parse_def merge_def)
  have h: "header_ok [''H1'', ''H2''] scenario_ops []"
    by (simp add: scenario_ops_def parse_def merge_def)
  have v: "apply_ops scenario_ops [] = Inr [[''H1'', ''H2''], [''Z'', ''B''], [''C'', ''D'']]"
    by (simp add: scenario_ops_def parse_def merge_def handleEditCell_def)
  from C5_invariant_amended [of sample_ops "[''H1'', ''H2'']"] w
  have a: "\<exists>d. apply_ops sample_ops [] = Inr d \<and> list_all (\<lambda>r. length r = 7) (drop 1 d)"
    by blast
  from C5_invariant_amended [of scenario_ops "[''H1'', ''H2'']"] h
  have b: "\<exists>d. apply_ops scenario_ops [] = Inr d \<and> count_list d [''H1'', ''H2''] \<le> 1"
    by blast
  from a b v show ?thesis by blast
qed

text \<open>
  Claim C6. A batch of two images whose first image is answered 429 on all five attempts:
  the table stays empty and the second image is never fetched, but the run stays pending
  with the loading flag set and an empty error message. The error of line 96 rejects the
  promise of the \<^verbatim>\<open>onloadend\<close> callback, which nothing observes; the promise awaited at
  line 39 is never settled, so lines 133 and 136 are never reached.
\<close>

theorem C6_abort_without_message:
  "handleExtract always_429 st0 w0 =
     (Pending RetriesExhausted,
      \<lparr>imageFiles = [img1, img2], extractedData = [], loading = True, error = [],
        allExtracted = []\<rparr>,
      \<lparr>calls = 5,
        trace = [Fetch img1, Wait 1000, Fetch img1, Wait 2000, Fetch img1, Wait 4000,
                 Fetch img1, Wait 8000, Fetch img1, Wait 16000]\<rparr>)"
  by (simp add: always_429_def failure_def st0_def w0_def run_defs)

text \<open>
  Claim C7. The test of lines 101-107 does not cover every payload without usable content.
  A first part without text passes the test and \<^verbatim>\<open>trim\<close> is called on undefined at line 108;
  on the body \<^verbatim>\<open>null\<close> line 102 reads a member of null; on the candidates \<^verbatim>\<open>[null]\<close> line 104
  does; a body that is not JSON makes \<^verbatim>\<open>json()\<close> reject at line 99. Each time the callback
  throws before line 128: in a batch of two images whose first call is answered so, no
  error message is recorded, the run stays pending with the loading flag set, and the
  second image is never fetched.
\<close>

theorem C7_unusable_payload_hangs:
  "handleExtract (first_answer part_without_text) st0 w0 =
     (Pending TypeError, st0\<lparr>loading := True\<rparr>, \<lparr>calls = 1, trace = [Fetch img1]\<rparr>) \<and>
   handleExtract (first_answer null_body) st0 w0 =
     (Pending TypeError, st0\<lparr>loading := True\<rparr>, \<lparr>calls = 1, trace = [Fetch img1]\<rparr>) \<and>
   handleExtract (first_answer null_candidate) st0 w0 =
     (Pending TypeError, st0\<lparr>loading := True\<rparr>, \<lparr>calls = 1, trace = [Fetch img1]\<rparr>) \<and>
   handleExtract (first_answer not_json) st0 w0 =
     (Pending JsonFault, st0\<lparr>loading := True\<rparr>, \<lparr>calls = 1, trace = [Fetch img1]\<rparr>) \<and>
   error (st0\<lparr>loading := True\<rparr>) = [] \<and> allExtracted (st0\<lparr>loading := True\<rparr>) = []"
proof -
  have a: "handleExtract (first_answer part_without_text) st0 w0 =
      (Pending TypeError, st0\<lparr>loading := True\<rparr>, \<lparr>calls = 1, trace = [Fetch img1]\<rparr>)"
    by (simp add: first_answer_def part_without_text_def st0_def w0_def run_defs)
  have b: "handleExtract (first_answer null_body) st0 w0 =
      (Pending TypeError, st0\<lparr>loading := True\<rparr>, \<lparr>calls = 1, trace = [Fetch img1]\<rparr>)"
    by (simp add: first_answer_def null_body_def st0_def w0_def run_defs)
  have c: "handleExtract (first_answer null_candidate) st0 w0 =
      (Pending TypeError, st0\<lparr>loading := True\<rparr>, \<lparr>calls = 1, trace = [Fetch img1]\<rparr>)"
    by (simp add: first_answer_def null_candidate_def st0_def w0_def run_defs)
  have d: "handleExtract (first_answer not_json) st0 w0 =
      (Pending JsonFault, st0\<lparr>loading := True\<rparr>, \<lparr>calls = 1, trace = [Fetch img1]\<rparr>)"
    by (simp add: first_answer_def not_json_def st0_def w0_def run_defs)
  from a b c d show ?thesis by (simp add: st0_def)
qed

text \<open>
  Claim C8. For a non-empty table the downloaded text is the fixed header line followed by
  one line per row of the table, the cells of a row joined by commas and the lines by
  newlines; when no cell contains a newline, splitting the text at newlines gives back
  exactly these lines. For an empty table the error message is set and nothing is offered
  for download.
\<close>

theorem C8_csv_export:
  "(allExtracted st \<noteq> [] \<longrightarrow>
      handleDownloadCSV st =
        (st, Some (join ''\<newline>''
           (''Order Number,Recipient's Name,Phone Number,Standby Phone,State,City,Recipient Street''
            # map (join '','') (allExtracted st)))) \<and>
      ((\<forall>r\<in>set (allExtracted st). \<forall>c\<in>set r. CHR ''\<newline>'' \<notin> set c) \<longrightarrow>
         split_on CHR ''\<newline>'' (csvContent (allExtracted st)) =
           ''Order Number,Recipient's Name,Phone Number,Standby Phone,State,City,Recipient Street''
           # map (join '','') (allExtracted st))) \<and>
   (allExtracted st = [] \<longrightarrow>
      handleDownloadCSV st = (st\<lparr>error := ''No data to download.''\<rparr>, None))"
proof -
  have "split_on CHR ''\<newline>'' (csvContent d) =
      ''Order Number,Recipient's Name,Phone Number,Standby Phone,State,City,Recipient Street''
      # map (join '','') d"
    if "\<forall>r\<in>set d. \<forall>c\<in>set r. CHR ''\<newline>'' \<notin> set c" for d
    using csv_lines[of d] that by (simp add: header_line)
  then show ?thesis
    by (simp add: handleDownloadCSV_def csvContent_def header_line)
qed

text \<open>The export of a table of two rows, and of the empty table.\<close>

theorem C8_csv_export_witness:
  "handleDownloadCSV (st0\<lparr>allExtracted := small_table\<rparr>) =
     (st0\<lparr>allExtracted := small_table\<rparr>,
      Some ''Order Number,Recipient's Name,Phone Number,Standby Phone,State,City,Recipient Street\<newline>H1,H2\<newline>A,B'') \<and>
   split_on CHR ''\<newline>'' (csvContent small_table) =
     [''Order Number,Recipient's Name,Phone Number,Standby Phone,State,City,Recipient Street'',
      ''H1,H2'', ''A,B''] \<and>
   handleDownloadCSV st0 = (st0\<lparr>error := ''No data to download.''\<rparr>, None)"
proof -
  have ne: "allExtracted (st0\<lparr>allExtracted := small_table\<rparr>) \<noteq> []"
    by (simp add: small_table_def)
  have clean: "\<forall>r\<in>set (allExtracted (st0\<lparr>allExtracted := small_table\<rparr>)). \<forall>c\<in>set r.
      CHR ''\<newline>'' \<notin> set c"
    by (simp add: small_table_def)
  have emp: "allExtracted st0 = []" by (simp add: st0_def)
  from C8_csv_export [of "st0\<lparr>allExtracted := small_table\<rparr>"] ne clean
  have full: "handleDownloadCSV (st0\<lparr>allExtracted := small_table\<rparr>) =
      (st0\<lparr>allExtracted := small_table\<rparr>,
       Some (join ''\<newline>''
         (''Order Number,Recipient's Name,Phone Number,Standby Phone,State,City,Recipient Street''
          # map (join '','') small_table)))"
    and lines: "split_on CHR ''\<newline>'' (csvContent small_table) =
      ''Order Number,Recipient's Name,Phone Number,Standby Phone,State,City,Recipient Street''
      # map (join '','') small_table"
    by simp_all
  from C8_csv_export [of st0] emp
  have none: "handleDownloadCSV st0 = (st0\<lparr>error := ''No data to download.''\<rparr>, None)"
    by simp
  from full lines none show ?thesis
    by (simp add: small_table_def)
qed

text \<open>
  Claim C9. An edit that addresses an existing cell succeeds, puts the new value into
  that cell, keeps the number of rows and the length of every row, and leaves every other
  cell as it was.
\<close>

theorem C9_edit_cell_frame:
  assumes "r < length d" and "c < length (d ! r)"
  shows "\<exists>d'. handleEditCell r c v d = Inr d' \<and>
           length d' = length d \<and>
           (\<forall>i<length d. length (d' ! i) = length (d ! i)) \<and>
           d' ! r ! c = v \<and>
           (\<forall>i j. i < length d \<and> j < length (d ! i) \<and> (i \<noteq> r \<or> j \<noteq> c) \<longrightarrow>
              d' ! i ! j = d ! i ! j)"
proof -
  let ?d' = "d[r := (d ! r)[c := v]]"
  have "handleEditCell r c v d = Inr ?d'"
    using assms by (rule edit_in_range)
  moreover have "length ?d' = length d" by simp
  moreover have "\<forall>i<length d. length (?d' ! i) = length (d ! i)"
    using assms by (auto simp: nth_list_update)
  moreover have "?d' ! r ! c = v"
    using assms by simp
  moreover have "\<forall>i j. i < length d \<and> j < length (d ! i) \<and> (i \<noteq> r \<or> j \<noteq> c) \<longrightarrow>
      ?d' ! i ! j = d ! i ! j"
    using assms by (auto simp: nth_list_update)
  ultimately show ?thesis by blast
qed

text \<open>Editing the first cell of the second row of a table of two rows.\<close>

theorem C9_edit_cell_frame_witness:
  "\<exists>d'. handleEditCell 1 0 ''Z'' small_table = Inr d' \<and> length d' = 2 \<and>
      length (d' ! 0) = 2 \<and> length (d' ! 1) = 2 \<and>
      d' ! 1 ! 0 = ''Z'' \<and> d' ! 1 ! 1 = ''B'' \<and> d' ! 0 = [''H1'', ''H2'']"
proof -
  have r: "1 < length small_table" and c: "0 < length (small_table ! 1)"
    by (simp_all add: small_table_def)
  from C9_edit_cell_frame [OF r c, of "''Z''"] obtain d' where
    d': "handleEditCell 1 0 ''Z'' small_table = Inr d'" "length d' = length small_table"
        "\<forall>i<length small_table. length (d' ! i) = length (small_table ! i)"
        "d' ! 1 ! 0 = ''Z''"
        "\<forall>i j. i < length small_table \<and> j < length (small_table ! i) \<and> (i \<noteq> 1 \<or> j \<noteq> 0) \<longrightarrow>
           d' ! i ! j = small_table ! i ! j"
    by blast
  from d'(3) have l0: "length (d' ! 0) = 2" and l1: "length (d' ! 1) = 2"
    by (simp_all add: small_table_def)
  from d'(5) have "d' ! 1 ! 1 = small_table ! 1 ! 1" "d' ! 0 ! 0 = small_table ! 0 ! 0"
      "d' ! 0 ! 1 = small_table ! 0 ! 1"
    by (simp_all add: small_table_def)
  then have cells: "d' ! 1 ! 1 = ''B''" "d' ! 0 ! 0 = ''H1''" "d' ! 0 ! 1 = ''H2''"
    by (simp_all add: small_table_def)
  have "d' ! 0 = [''H1'', ''H2'']"
    using l0 cells(2,3) by (intro nth_equalityI) (auto simp: less_Suc_eq numeral_2_eq_2)
  with d'(1,2,4) l0 l1 cells show ?thesis
    by (simp add: small_table_def)
qed

text \<open>
  Claim C10. A first image that is extracted, followed by an image answered 429 on every
  attempt: the rows merged from the first image stay in the table, in place, but the
  path of lines 132-136 is never entered. The run stays pending, the error message is not
  replaced and the loading flag is not cleared.
\<close>

theorem C10_abort_path_not_entered:
  "handleExtract answer_then_429 st0 w0 =
     (Pending RetriesExhausted,
      \<lparr>imageFiles = [img1, img2], extractedData = ''H1,H2\<newline>A,B'', loading = True,
        error = [], allExtracted = [[''H1'', ''H2''], [''A'', ''B'']]\<rparr>,
      \<lparr>calls = 6,
        trace = [Fetch img1, Fetch img2, Wait 1000, Fetch img2, Wait 2000, Fetch img2,
                 Wait 4000, Fetch img2, Wait 8000, Fetch img2, Wait 16000]\<rparr>)"
  by (simp add: answer_then_429_def answer_def failure_def st0_def w0_def run_defs)

end
